theory Spec2Isabelle
  imports Complex_Main
begin

section \<open>Numbers, errors and arrays\<close>

text \<open>
  The class \<^verbatim>\<open>DoublePendulum\<close> of \<^verbatim>\<open>DoublePendulum.py\<close> computes with Python floats and
  numpy arrays of floats (or, in its symbolic mode, with exact sympy expressions).
  Floats are idealised here as real numbers: no rounding and no overflow.  From finite
  inputs the only non-finite value the code can then produce is the NaN that
  \<^verbatim>\<open>np.arccos\<close> returns outside \<open>[-1, 1]\<close>; it is kept explicit in \<open>npfloat\<close>.

  Every exception the code can raise is a value of \<open>error\<close>, and a function that can
  raise returns \<open>error + 'a\<close> (\<open>Inl\<close> the exception).
\<close>

datatype error =
    IndexError
  | ZeroDivisionError
  | ValueError
  | LinAlgError
  | NonSquareMatrixError
  | NonInvertibleMatrixError

datatype npfloat = Fin real | NaN

text \<open>The parameter dictionary \<^verbatim>\<open>p\<close>; a missing key \<^verbatim>\<open>'symbolic'\<close> reads as \<open>False\<close>.\<close>

record params =
  m0 :: real
  m1 :: real
  l0 :: real
  l1 :: real
  gamma :: real
  symbolic :: bool

text \<open>
  \<^verbatim>\<open>la\<close> is \<^verbatim>\<open>scipy.linalg\<close>.  What \<^verbatim>\<open>la.inv\<close> does on a \<open>0\<times>0\<close> array is not fixed by
  its documentation and is not the same in every release of the library (recent ones
  return the empty array, older ones raise), so it is a field of the module:
  \<open>Some e\<close> when the call raises \<open>e\<close>, \<open>None\<close> when it returns the empty array.
\<close>

record linalg =
  inv_empty :: "error option"

text \<open>A two-dimensional numpy array: its shape and its rows.\<close>

datatype ndarray = NdArray (nrows: nat) (ncols: nat) (rows: "real list list")

definition wf_array :: "ndarray \<Rightarrow> bool" where
  "wf_array A = (length (rows A) = nrows A \<and> list_all (\<lambda>r. length r = ncols A) (rows A))"

definition bind_result :: "error + 'a \<Rightarrow> ('a \<Rightarrow> error + 'b) \<Rightarrow> error + 'b" where
  "bind_result m f = (case m of Inl e \<Rightarrow> Inl e | Inr x \<Rightarrow> f x)"

text \<open>\<^verbatim>\<open>xs[i]\<close> for a constant index \<open>i \<ge> 0\<close>.\<close>

definition getitem :: "'a list \<Rightarrow> nat \<Rightarrow> error + 'a" where
  "getitem xs i = (if i < length xs then Inr (xs ! i) else Inl IndexError)"

text \<open>\<^verbatim>\<open>x / y\<close> on Python floats.\<close>

definition py_div :: "real \<Rightarrow> real \<Rightarrow> error + real" where
  "py_div x y = (if y = 0 then Inl ZeroDivisionError else Inr (x / y))"

definition np_arccos :: "real \<Rightarrow> npfloat" where
  "np_arccos x = (if - 1 \<le> x \<and> x \<le> 1 then Fin (arccos x) else NaN)"

fun fl_add :: "npfloat \<Rightarrow> npfloat \<Rightarrow> npfloat" where
  "fl_add (Fin x) (Fin y) = Fin (x + y)"
| "fl_add _ _ = NaN"

text \<open>\<^verbatim>\<open>x < 0\<close> on a float: false on NaN.\<close>

fun lt0 :: "npfloat \<Rightarrow> bool" where
  "lt0 (Fin x) = (x < 0)"
| "lt0 NaN = False"

definition dot :: "real list \<Rightarrow> real list \<Rightarrow> real" where
  "dot xs ys = sum_list (map2 (*) xs ys)"

definition column :: "real list list \<Rightarrow> nat \<Rightarrow> real list" where
  "column rs j = map (\<lambda>r. r ! j) rs"

text \<open>\<^verbatim>\<open>A.T\<close>\<close>

definition np_T :: "ndarray \<Rightarrow> ndarray" where
  "np_T A = NdArray (ncols A) (nrows A) (map (column (rows A)) [0..<ncols A])"

definition np_identity :: "nat \<Rightarrow> ndarray" where
  "np_identity n =
     NdArray n n (map (\<lambda>i. map (\<lambda>j. if i = j then 1 else 0) [0..<n]) [0..<n])"

text \<open>\<^verbatim>\<open>c * A\<close> and \<^verbatim>\<open>-A\<close>\<close>

definition np_smul :: "real \<Rightarrow> ndarray \<Rightarrow> ndarray" where
  "np_smul c A = NdArray (nrows A) (ncols A) (map (map ((*) c)) (rows A))"

definition np_neg :: "ndarray \<Rightarrow> ndarray" where
  "np_neg A = NdArray (nrows A) (ncols A) (map (map uminus) (rows A))"

text \<open>The matrix product of arrays whose inner dimensions agree.\<close>

definition mat_mul :: "ndarray \<Rightarrow> ndarray \<Rightarrow> ndarray" where
  "mat_mul A B =
     NdArray (nrows A) (ncols B)
       (map (\<lambda>r. map (\<lambda>j. dot r (column (rows B) j)) [0..<ncols B]) (rows A))"

text \<open>\<^verbatim>\<open>A @ B\<close> on two-dimensional arrays.\<close>

definition np_matmul :: "ndarray \<Rightarrow> ndarray \<Rightarrow> error + ndarray" where
  "np_matmul A B = (if ncols A = nrows B then Inr (mat_mul A B) else Inl ValueError)"

definition mat_vec :: "ndarray \<Rightarrow> real list \<Rightarrow> real list" where
  "mat_vec A v = map (\<lambda>r. dot r v) (rows A)"

text \<open>\<^verbatim>\<open>A @ v\<close> with \<^verbatim>\<open>v\<close> one-dimensional.\<close>

definition np_matvec :: "ndarray \<Rightarrow> real list \<Rightarrow> error + real list" where
  "np_matvec A v = (if ncols A = length v then Inr (mat_vec A v) else Inl ValueError)"

text \<open>\<^verbatim>\<open>A + B\<close>, with numpy's broadcasting of an axis of length 1.\<close>

definition broadcast_dim :: "nat \<Rightarrow> nat \<Rightarrow> nat option" where
  "broadcast_dim m n =
     (if m = n then Some m else if m = 1 then Some n else if n = 1 then Some m else None)"

definition bc_entry :: "ndarray \<Rightarrow> nat \<Rightarrow> nat \<Rightarrow> real" where
  "bc_entry A i j =
     rows A ! (if nrows A = 1 then 0 else i) ! (if ncols A = 1 then 0 else j)"

definition np_add :: "ndarray \<Rightarrow> ndarray \<Rightarrow> error + ndarray" where
  "np_add A B =
     (case (broadcast_dim (nrows A) (nrows B), broadcast_dim (ncols A) (ncols B)) of
        (Some m, Some n) \<Rightarrow>
          Inr (NdArray m n
                 (map (\<lambda>i. map (\<lambda>j. bc_entry A i j + bc_entry B i j) [0..<n]) [0..<m]))
      | _ \<Rightarrow> Inl ValueError)"

subsection \<open>Matrix inversion\<close>

text \<open>
  On an array of floats \<^verbatim>\<open>la.inv\<close> factorises with LAPACK and raises \<^verbatim>\<open>LinAlgError\<close>
  when it meets a zero pivot.  In exact arithmetic that is: the determinant is zero;
  otherwise the result is the inverse matrix, written here with cofactors.
\<close>

definition del_at :: "nat \<Rightarrow> 'a list \<Rightarrow> 'a list" where
  "del_at i xs = take i xs @ drop (Suc i) xs"

function det_rows :: "real list list \<Rightarrow> real" where
  "det_rows [] = 1"
| "det_rows (r # rs) =
     (\<Sum>j\<leftarrow>[0..<length r]. (- 1) ^ j * r ! j * det_rows (map (del_at j) rs))"
  by pat_completeness auto
termination
  by (relation "measure length") auto

definition cofactor :: "real list list \<Rightarrow> nat \<Rightarrow> nat \<Rightarrow> real" where
  "cofactor rs i j = (- 1) ^ (i + j) * det_rows (map (del_at j) (del_at i rs))"

definition inverse_rows :: "real list list \<Rightarrow> real list list" where
  "inverse_rows rs =
     (let n = length rs
      in map (\<lambda>i. map (\<lambda>j. cofactor rs j i / det_rows rs) [0..<n]) [0..<n])"

definition la_inv_float64 :: "linalg \<Rightarrow> ndarray \<Rightarrow> error + ndarray" where
  "la_inv_float64 la A =
     (if nrows A \<noteq> ncols A then Inl ValueError
      else if nrows A = 0 then (case inv_empty la of Some e \<Rightarrow> Inl e | None \<Rightarrow> Inr A)
      else if det_rows (rows A) = 0 then Inl LinAlgError
      else Inr (NdArray (nrows A) (ncols A) (inverse_rows (rows A))))"

text \<open>
  An array whose entries are sympy expressions has the dtype \<^verbatim>\<open>object\<close>, whatever the
  expressions are.  \<^verbatim>\<open>la.inv\<close> validates its argument first and refuses such an array with
  \<^verbatim>\<open>ValueError\<close>.  The entries themselves are modelled as the real numbers they denote; the
  dtype of an array is carried beside it where the code hands the array to \<^verbatim>\<open>la.inv\<close>.
\<close>

datatype dtype = Float64 | Object

definition la_inv :: "linalg \<Rightarrow> dtype \<Rightarrow> ndarray \<Rightarrow> error + ndarray" where
  "la_inv la dt A = (case dt of Object \<Rightarrow> Inl ValueError | Float64 \<Rightarrow> la_inv_float64 la A)"

text \<open>\<^verbatim>\<open>sympy.Matrix(A).inv()\<close>\<close>

definition sympy_inv :: "ndarray \<Rightarrow> error + ndarray" where
  "sympy_inv A =
     (if nrows A \<noteq> ncols A then Inl NonSquareMatrixError
      else if det_rows (rows A) = 0 then Inl NonInvertibleMatrixError
      else Inr (NdArray (nrows A) (ncols A) (inverse_rows (rows A))))"

text \<open>
  \<open>B\<close> is the inverse of the square array \<open>A\<close>: the mathematical notion the specification
  writes as \<open>A\<inverse>\<close>.
\<close>

definition is_inverse :: "ndarray \<Rightarrow> ndarray \<Rightarrow> bool" where
  "is_inverse A B =
     (nrows A = ncols A \<and> nrows B = nrows A \<and> ncols B = ncols A \<and> wf_array B \<and>
      mat_mul A B = np_identity (nrows A) \<and> mat_mul B A = np_identity (nrows A))"

section \<open>The class DoublePendulum\<close>

text \<open>
  The class methods keep their names, prefixed with the name of the class, and their
  arguments \<^verbatim>\<open>(t, k, q, dq, J, p)\<close>; \<^verbatim>\<open>t\<close> and \<^verbatim>\<open>k\<close> are never inspected.  The
  methods that call \<^verbatim>\<open>la.inv\<close> take the module \<^verbatim>\<open>la\<close> first.

  \<open>M\<close> and \<open>C\<close> take their cosine and sine from sympy or from numpy, as
  \<^verbatim>\<open>p['symbolic']\<close> says; both are the real functions here.  Only \<open>ddq\<close> inverts the
  mass matrix with sympy in the symbolic mode; \<open>Delta\<close> hands it to \<^verbatim>\<open>la.inv\<close> in both
  modes.  The entries of \<^verbatim>\<open>p\<close> are Python numbers, as \<^verbatim>\<open>nominal_parameters\<close> gives them, so the one division by a
  parameter, \<^verbatim>\<open>-d/b\<close> in \<open>a\<close>, raises \<^verbatim>\<open>ZeroDivisionError\<close> when \<open>b\<close> is zero.
\<close>

definition DoublePendulum_M :: "'t \<Rightarrow> 'k \<Rightarrow> real list \<Rightarrow> 'j \<Rightarrow> params \<Rightarrow> error + ndarray" where
  "DoublePendulum_M t k q J p =
     (let a = m0 p * (l0 p)\<^sup>2 / 3 + m1 p * (l1 p)\<^sup>2 / 3 + m0 p * (l0 p / 2)\<^sup>2
                + m1 p * ((l0 p)\<^sup>2 + (l1 p / 2)\<^sup>2);
          b = m1 p * l0 p * l1 p / 2;
          d = m1 p * (l1 p)\<^sup>2 / 3 + m1 p * (l1 p / 2)\<^sup>2
      in bind_result (getitem q 1) (\<lambda>q1.
           let m00 = a + 2 * b * cos q1;
               m10 = d + b * cos q1;
               m11 = d
           in Inr (NdArray 2 2 [[m00, m10], [m10, m11]])))"

text \<open>
  The dtype of the array \<open>M\<close> returns: with \<^verbatim>\<open>p['symbolic']\<close> its entries are built with
  \<^verbatim>\<open>sympy.cos\<close> and are sympy expressions.
\<close>

definition M_dtype :: "params \<Rightarrow> dtype" where
  "M_dtype p = (if symbolic p then Object else Float64)"

definition DoublePendulum_C ::
  "'t \<Rightarrow> 'k \<Rightarrow> real list \<Rightarrow> real list \<Rightarrow> 'j \<Rightarrow> params \<Rightarrow> error + ndarray" where
  "DoublePendulum_C t k q dq J p =
     (let b = m1 p * l0 p * l1 p / 2
      in bind_result (getitem q 1) (\<lambda>q1.
         bind_result (getitem dq 1) (\<lambda>dq1.
         bind_result (getitem dq 0) (\<lambda>dq0.
           let c00 = - b * sin q1 * dq1;
               c01 = - b * sin q1 * (dq0 + dq1);
               c10 = b * sin q1 * dq0;
               c11 = 0
           in Inr (NdArray 2 2 [[c00, c01], [c10, c11]])))))"

definition DoublePendulum_ddq ::
  "linalg \<Rightarrow> 't \<Rightarrow> 'k \<Rightarrow> real list \<Rightarrow> real list \<Rightarrow> 'j \<Rightarrow> params \<Rightarrow> error + real list" where
  "DoublePendulum_ddq la t k q dq J p =
     bind_result (DoublePendulum_M t k q J p) (\<lambda>M.
     bind_result (if symbolic p then sympy_inv M else la_inv la (M_dtype p) M) (\<lambda>Minv.
     bind_result (DoublePendulum_C t k q dq J p) (\<lambda>C.
     bind_result (np_matvec (np_neg C) dq) (\<lambda>rhs.
       np_matvec Minv rhs))))"

definition DoublePendulum_a ::
  "'t \<Rightarrow> 'k \<Rightarrow> real list \<Rightarrow> 'v \<Rightarrow> 'j \<Rightarrow> params \<Rightarrow> error + npfloat list" where
  "DoublePendulum_a t k q dq J p =
     (let b = m1 p * l0 p * l1 p / 2;
          d = m1 p * (l1 p)\<^sup>2 / 3 + m1 p * (l1 p / 2)\<^sup>2
      in bind_result (getitem q 0) (\<lambda>q0.
         bind_result (getitem q 1) (\<lambda>q1.
         bind_result (py_div (- d) b) (\<lambda>x.
           Inr [Fin (q0 + 0), fl_add (Fin (- q1)) (np_arccos x)]))))"

definition DoublePendulum_Da ::
  "'t \<Rightarrow> 'k \<Rightarrow> real list \<Rightarrow> 'v \<Rightarrow> bool list \<Rightarrow> params \<Rightarrow> error + ndarray" where
  "DoublePendulum_Da t k q dq J p =
     bind_result (getitem J 0) (\<lambda>J0.
     bind_result (getitem J 1) (\<lambda>J1.
       let Da = (if J0 then [[1, 0]] else []) @ (if J1 then [[0, - 1]] else [])
       in if 2 * length Da > 0 then Inr (NdArray (length Da) 2 Da)
          else Inr (NdArray 0 (length q) [])))"

definition DoublePendulum_Delta ::
  "linalg \<Rightarrow> 't \<Rightarrow> 'k \<Rightarrow> real list \<Rightarrow> 'v \<Rightarrow> bool list \<Rightarrow> params \<Rightarrow> error + ndarray" where
  "DoublePendulum_Delta la t k q dq J p =
     (let d = length q
      in bind_result (DoublePendulum_M t k q J p) (\<lambda>M.
         bind_result (DoublePendulum_Da t k q dq J p) (\<lambda>Da.
         bind_result (la_inv la (M_dtype p) M) (\<lambda>Minv.
         bind_result (np_matmul Da Minv) (\<lambda>X1.
         bind_result (np_matmul X1 (np_T Da)) (\<lambda>X2.
         bind_result (la_inv la Float64 X2) (\<lambda>X3.
           let Lambda = np_neg X3
           in bind_result (la_inv la (M_dtype p) M) (\<lambda>Minv'.
              bind_result (np_matmul (np_smul (1 + gamma p) Minv') (np_T Da)) (\<lambda>Y1.
              bind_result (np_matmul Y1 Lambda) (\<lambda>Y2.
              bind_result (np_matmul Y2 Da) (\<lambda>Y3.
                np_add (np_identity d) Y3)))))))))))"

definition DoublePendulum_R ::
  "linalg \<Rightarrow> 't \<Rightarrow> 'k \<Rightarrow> real list \<Rightarrow> real list \<Rightarrow> 'j \<Rightarrow> params
     \<Rightarrow> error + (real list \<times> real list \<times> 'j)" where
  "DoublePendulum_R la t k q dq J p =
     bind_result (DoublePendulum_a t k q dq J p) (\<lambda>a.
       let Jimpact = map lt0 a
       in bind_result (DoublePendulum_Delta la t k q dq Jimpact p) (\<lambda>Delta.
          bind_result (np_matvec Delta dq) (\<lambda>dq'.
            Inr (q, dq', J))))"

subsection \<open>The projector as the specification writes it\<close>



subsection \<open>A concrete parameter set\<close>

text \<open>
  The parameters used to run the theorems on a concrete input:
  \<open>b = d = 3\<close>, so that \<open>arccos (- d / b) = \<pi>\<close>, and the mass matrix is
  \<open>[[23, 6], [6, 3]]\<close> where \<open>cos q\<^sub>1 = 1\<close>.
\<close>

definition test_parameters :: params where
  "test_parameters =
     \<lparr>m0 = 12 / 49, m1 = 1 / 7, l0 = 7, l1 = 6, gamma = 1 / 2, symbolic = False\<rparr>"

section \<open>Evaluation lemmas\<close>

lemma bind_result_simps [simp]:
  "bind_result (Inl e) f = Inl e"
  "bind_result (Inr x) f = f x"
  by (simp_all add: bind_result_def)

lemma getitem_simps [simp]:
  "getitem (x # xs) 0 = Inr x"
  "getitem (x # y # ys) (Suc 0) = Inr y"
  "getitem [] i = Inl IndexError"
  "getitem [x] (Suc 0) = Inl IndexError"
  by (simp_all add: getitem_def)

lemmas array_ops = np_matmul_def mat_mul_def dot_def column_def upt_rec np_T_def np_smul_def
  np_neg_def np_add_def np_identity_def broadcast_dim_def bc_entry_def np_matvec_def mat_vec_def

lemma list_length_2: "length xs = 2 \<Longrightarrow> \<exists>x y. xs = [x, y]"
  by (cases xs; cases "tl xs") auto

lemma list_length_1: "length xs = Suc 0 \<Longrightarrow> \<exists>x. xs = [x]"
  by (cases xs) auto

lemma det_rows_2 [simp]: "det_rows [[a, b], [c, d]] = a * d - b * c"
  by (simp add: upt_rec del_at_def)

lemma det_rows_1 [simp]: "det_rows [[a]] = a"
  by (simp add: upt_rec del_at_def)

lemma la_inv_simps [simp]:
  "la_inv la Float64 A = la_inv_float64 la A"
  "la_inv la Object A = Inl ValueError"
  by (simp_all add: la_inv_def)

lemma M_dtype_simps [simp]:
  "\<not> symbolic p \<Longrightarrow> M_dtype p = Float64"
  "symbolic p \<Longrightarrow> M_dtype p = Object"
  by (simp_all add: M_dtype_def)

lemma la_inv_0:
  "la_inv_float64 la (NdArray 0 0 []) =
     (case inv_empty la of Some e \<Rightarrow> Inl e | None \<Rightarrow> Inr (NdArray 0 0 []))"
  by (simp add: la_inv_float64_def)

lemma la_inv_1:
  "la_inv_float64 la (NdArray (Suc 0) (Suc 0) [[a]]) =
     (if a = 0 then Inl LinAlgError else Inr (NdArray 1 1 [[1 / a]]))"
  by (simp add: la_inv_float64_def inverse_rows_def cofactor_def upt_rec del_at_def)

lemma la_inv_2:
  "la_inv_float64 la (NdArray 2 2 [[a, b], [c, d]]) =
     (if a * d - b * c = 0 then Inl LinAlgError
      else Inr (NdArray 2 2 [[d / (a * d - b * c), - b / (a * d - b * c)],
                             [- c / (a * d - b * c), a / (a * d - b * c)]]))"
  by (simp add: la_inv_float64_def inverse_rows_def cofactor_def upt_rec del_at_def)

lemma sympy_inv_2:
  "sympy_inv (NdArray 2 2 [[a, b], [c, d]]) =
     (if a * d - b * c = 0 then Inl NonInvertibleMatrixError
      else Inr (NdArray 2 2 [[d / (a * d - b * c), - b / (a * d - b * c)],
                             [- c / (a * d - b * c), a / (a * d - b * c)]]))"
  by (simp add: sympy_inv_def inverse_rows_def cofactor_def upt_rec del_at_def)

subsection \<open>The inverse matrix\<close>

lemma wf_array_2x2:
  assumes "wf_array B" "nrows B = 2" "ncols B = 2"
  shows "\<exists>e f g h. B = NdArray 2 2 [[e, f], [g, h]]"
proof -
  obtain rs where B: "B = NdArray 2 2 rs"
    using assms(2,3) by (cases B) auto
  with assms(1) have len: "length rs = 2" and all: "list_all (\<lambda>r. length r = 2) rs"
    by (simp_all add: wf_array_def)
  from len obtain r1 r2 where rs: "rs = [r1, r2]"
    using list_length_2 by blast
  with all have "length r1 = 2" "length r2 = 2" by simp_all
  then obtain e f g h where "r1 = [e, f]" "r2 = [g, h]"
    using list_length_2 by metis
  with B rs show ?thesis by blast
qed

lemma wf_array_1x1:
  assumes "wf_array B" "nrows B = Suc 0" "ncols B = Suc 0"
  shows "\<exists>e. B = NdArray 1 1 [[e]]"
proof -
  obtain rs where B: "B = NdArray 1 1 rs"
    using assms(2,3) by (cases B) auto
  with assms(1) have len: "length rs = Suc 0" and all: "list_all (\<lambda>r. length r = Suc 0) rs"
    by (simp_all add: wf_array_def)
  from len obtain r1 where rs: "rs = [r1]"
    using list_length_1 by blast
  with all have "length r1 = Suc 0" by simp
  then obtain e where "r1 = [e]"
    using list_length_1 by blast
  with B rs show ?thesis by blast
qed

lemma is_inverse_2x2_iff:
  "is_inverse (NdArray 2 2 [[a, b], [c, d]]) (NdArray 2 2 [[e, f], [g, h]]) \<longleftrightarrow>
     a * e + b * g = 1 \<and> a * f + b * h = 0 \<and> c * e + d * g = 0 \<and> c * f + d * h = 1 \<and>
     e * a + f * c = 1 \<and> e * b + f * d = 0 \<and> g * a + h * c = 0 \<and> g * b + h * d = 1"
  by (auto simp add: is_inverse_def wf_array_def mat_mul_def dot_def column_def upt_rec
      np_identity_def)

lemma is_inverse_1x1_iff:
  "is_inverse (NdArray (Suc 0) (Suc 0) [[a]]) (NdArray (Suc 0) (Suc 0) [[e]]) \<longleftrightarrow>
     a * e = 1 \<and> e * a = 1"
  by (auto simp add: is_inverse_def wf_array_def mat_mul_def dot_def column_def upt_rec
      np_identity_def)

lemma det_product_2x2:
  fixes a :: real
  shows "(a * e + b * g) * (c * f + d * h) - (a * f + b * h) * (c * e + d * g)
           = (a * d - b * c) * (e * h - f * g)"
  by (simp add: algebra_simps)

lemma inverse_entries_2x2:
  fixes a :: real
  assumes eqs: "a * e + b * g = 1" "a * f + b * h = 0" "c * e + d * g = 0" "c * f + d * h = 1"
  shows "a * d - b * c \<noteq> 0" and "e * h - f * g \<noteq> 0"
    and "e = d / (a * d - b * c)" and "f = - b / (a * d - b * c)"
    and "g = - c / (a * d - b * c)" and "h = a / (a * d - b * c)"
proof -
  have "(a * d - b * c) * (e * h - f * g) = 1"
    using det_product_2x2 [of a e b g c f d h] eqs by simp
  then show nz: "a * d - b * c \<noteq> 0" and "e * h - f * g \<noteq> 0" by auto
  have "e * (a * d - b * c) = d * (a * e + b * g) - b * (c * e + d * g)"
    by (simp add: algebra_simps)
  then have "e * (a * d - b * c) = d" using eqs by simp
  then show "e = d / (a * d - b * c)"
    by (simp only: nonzero_eq_divide_eq [OF nz])
  have "f * (a * d - b * c) = d * (a * f + b * h) - b * (c * f + d * h)"
    by (simp add: algebra_simps)
  then have "f * (a * d - b * c) = - b" using eqs by simp
  then show "f = - b / (a * d - b * c)"
    by (simp only: nonzero_eq_divide_eq [OF nz])
  have "g * (a * d - b * c) = a * (c * e + d * g) - c * (a * e + b * g)"
    by (simp add: algebra_simps)
  then have "g * (a * d - b * c) = - c" using eqs by simp
  then show "g = - c / (a * d - b * c)"
    by (simp only: nonzero_eq_divide_eq [OF nz])
  have "h * (a * d - b * c) = a * (c * f + d * h) - c * (a * f + b * h)"
    by (simp add: algebra_simps)
  then have "h * (a * d - b * c) = a" using eqs by simp
  then show "h = a / (a * d - b * c)"
    by (simp only: nonzero_eq_divide_eq [OF nz])
qed

text \<open>An array that has an inverse is inverted by \<open>la_inv_float64\<close>, and to that inverse.\<close>

lemma la_inv_complete_2x2:
  assumes "is_inverse (NdArray 2 2 [[a, b], [c, d]]) B"
  shows "la_inv_float64 la (NdArray 2 2 [[a, b], [c, d]]) = Inr B"
    and "sympy_inv (NdArray 2 2 [[a, b], [c, d]]) = Inr B"
    and "\<exists>e f g h. B = NdArray 2 2 [[e, f], [g, h]] \<and> e * h - f * g \<noteq> 0"
proof -
  from assms have "wf_array B" "nrows B = 2" "ncols B = 2"
    by (simp_all add: is_inverse_def)
  then obtain e f g h where B: "B = NdArray 2 2 [[e, f], [g, h]]"
    using wf_array_2x2 by blast
  from assms have eqs: "a * e + b * g = 1" "a * f + b * h = 0" "c * e + d * g = 0"
    "c * f + d * h = 1"
    unfolding B is_inverse_2x2_iff by simp_all
  note ent = inverse_entries_2x2 [OF eqs]
  have B': "B = NdArray 2 2 [[d / (a * d - b * c), - b / (a * d - b * c)],
                             [- c / (a * d - b * c), a / (a * d - b * c)]]"
    unfolding B using ent(3-6) by (simp only:)
  show "la_inv_float64 la (NdArray 2 2 [[a, b], [c, d]]) = Inr B"
    using ent(1) by (simp add: la_inv_2 B')
  show "sympy_inv (NdArray 2 2 [[a, b], [c, d]]) = Inr B"
    using ent(1) by (simp add: sympy_inv_2 B')
  show "\<exists>e f g h. B = NdArray 2 2 [[e, f], [g, h]] \<and> e * h - f * g \<noteq> 0"
    using B ent(2) by blast
qed

lemma la_inv_complete_1x1:
  assumes "is_inverse (NdArray (Suc 0) (Suc 0) [[a]]) B"
  shows "la_inv_float64 la (NdArray (Suc 0) (Suc 0) [[a]]) = Inr B"
proof -
  from assms have "wf_array B" "nrows B = Suc 0" "ncols B = Suc 0"
    by (simp_all add: is_inverse_def)
  then obtain e where B: "B = NdArray 1 1 [[e]]"
    using wf_array_1x1 by blast
  from assms have eqs: "a * e = 1"
    unfolding B One_nat_def is_inverse_1x1_iff by simp
  then have "a \<noteq> 0" by auto
  with eqs have "e = 1 / a" by (simp add: eq_divide_eq mult.commute)
  with \<open>a \<noteq> 0\<close> show ?thesis by (simp add: la_inv_1 B)
qed

text \<open>What \<open>la_inv_float64\<close> returns for a \<open>2\<times>2\<close> array is its inverse.\<close>

lemma la_inv_sound_2x2:
  assumes "la_inv_float64 la (NdArray 2 2 [[a, b], [c, d]]) = Inr B"
  shows "is_inverse (NdArray 2 2 [[a, b], [c, d]]) B"
proof -
  from assms have nz: "a * d - b * c \<noteq> 0" and
    B: "B = NdArray 2 2 [[d / (a * d - b * c), - b / (a * d - b * c)],
                             [- c / (a * d - b * c), a / (a * d - b * c)]]"
    by (auto simp add: la_inv_2 split: if_splits)
  have *: "a * d / (a * d - b * c) - b * c / (a * d - b * c) = 1"
    using nz by (simp add: diff_divide_distrib [symmetric])
  show ?thesis
    unfolding B is_inverse_2x2_iff using nz * by (simp add: field_simps)
qed

lemma la_inv_shape_2x2:
  assumes "la_inv_float64 la (NdArray 2 2 [[a, b], [c, d]]) = Inr B"
  shows "\<exists>e f g h. B = NdArray 2 2 [[e, f], [g, h]]"
  using assms by (auto simp add: la_inv_2 split: if_splits)

section \<open>The methods, evaluated\<close>

lemma M_eval:
  "DoublePendulum_M t k (q0 # q1 # qs) J p =
     Inr (NdArray 2 2
       [[m0 p * (l0 p)\<^sup>2 / 3 + m1 p * (l1 p)\<^sup>2 / 3 + m0 p * (l0 p / 2)\<^sup>2
           + m1 p * ((l0 p)\<^sup>2 + (l1 p / 2)\<^sup>2) + 2 * (m1 p * l0 p * l1 p / 2) * cos q1,
         m1 p * (l1 p)\<^sup>2 / 3 + m1 p * (l1 p / 2)\<^sup>2 + m1 p * l0 p * l1 p / 2 * cos q1],
        [m1 p * (l1 p)\<^sup>2 / 3 + m1 p * (l1 p / 2)\<^sup>2 + m1 p * l0 p * l1 p / 2 * cos q1,
         m1 p * (l1 p)\<^sup>2 / 3 + m1 p * (l1 p / 2)\<^sup>2]])"
  by (simp add: DoublePendulum_M_def Let_def)

lemma M_shape:
  assumes "DoublePendulum_M t k q J p = Inr Mq"
  shows "\<exists>a b d. Mq = NdArray 2 2 [[a, b], [b, d]]"
  using assms
  by (auto simp add: DoublePendulum_M_def Let_def bind_result_def split: sum.splits)

lemma C_eval:
  "DoublePendulum_C t k (q0 # q1 # qs) (dq0 # dq1 # dqs) J p =
     Inr (NdArray 2 2
       [[- (m1 p * l0 p * l1 p / 2) * sin q1 * dq1,
         - (m1 p * l0 p * l1 p / 2) * sin q1 * (dq0 + dq1)],
        [m1 p * l0 p * l1 p / 2 * sin q1 * dq0, 0]])"
  by (simp add: DoublePendulum_C_def Let_def)

lemma a_eval:
  assumes "b = m1 p * l0 p * l1 p / 2" and "d = m1 p * (l1 p)\<^sup>2 / 3 + m1 p * (l1 p / 2)\<^sup>2"
  shows "DoublePendulum_a t k (q0 # q1 # qs) dq J p =
     (if b = 0 then Inl ZeroDivisionError
      else Inr [Fin q0, fl_add (Fin (- q1)) (np_arccos (- d / b))])"
  unfolding DoublePendulum_a_def assms [symmetric] by (simp add: py_div_def)

lemma Da_cases:
  "DoublePendulum_Da t k q dq (J0 # J1 # Js) p =
     Inr (if J0 then (if J1 then NdArray 2 2 [[1, 0], [0, - 1]] else NdArray 1 2 [[1, 0]])
          else (if J1 then NdArray 1 2 [[0, - 1]] else NdArray 0 (length q) []))"
  by (simp add: DoublePendulum_Da_def)

lemma Da_success:
  assumes "DoublePendulum_Da t k q dq J p = Inr A"
  shows "\<exists>J0 J1 Js. J = J0 # J1 # Js"
  using assms
  by (cases J; cases "tl J") (auto simp add: DoublePendulum_Da_def)

lemma frac_cancel:
  fixes D :: real
  assumes "D \<noteq> 0" and "x - y = c * D"
  shows "x / D - y / D = c"
proof -
  have "x / D - y / D = (x - y) / D" by (simp add: diff_divide_distrib)
  also have "\<dots> = c" using assms by simp
  finally show ?thesis .
qed

text \<open>
  The projector in terms of the entries \<open>e, f, g, h\<close> of the inverted mass matrix, for each
  of the four active sets.
\<close>

lemma Delta_eval:
  assumes M: "DoublePendulum_M t k q (J0 # J1 # Js) p = Inr Mq"
    and Mi: "la_inv_float64 la Mq = Inr (NdArray 2 2 [[e, f], [g, h]])"
    and q: "length q = 2"
    and numeric: "\<not> symbolic p"
  shows "DoublePendulum_Delta la t k q dq (J0 # J1 # Js) p =
     (if J0 then
        (if J1 then
           (if e * h - f * g = 0 then Inl LinAlgError
            else Inr (NdArray 2 2 [[- gamma p, 0], [0, - gamma p]]))
         else
           (if e = 0 then Inl LinAlgError
            else Inr (NdArray 2 2 [[- gamma p, 0], [- ((1 + gamma p) * g / e), 1]])))
      else
        (if J1 then
           (if h = 0 then Inl LinAlgError
            else Inr (NdArray 2 2 [[1, - ((1 + gamma p) * f / h)], [0, - gamma p]]))
         else
           (case inv_empty la of Some err \<Rightarrow> Inl err
            | None \<Rightarrow> Inr (NdArray 2 2 [[1, 0], [0, 1]]))))"
proof -
  have M': "DoublePendulum_M t k q J' p = Inr Mq" for J' :: "bool list"
    using M by (simp add: DoublePendulum_M_def)
  show ?thesis
  proof (cases J0; cases J1)
    assume J: "J0" "J1"
    show ?thesis
    proof (cases "e * h - f * g = 0")
      case True
      then show ?thesis
        using J by (simp add: DoublePendulum_Delta_def M' Mi q numeric Da_cases array_ops la_inv_2)
    next
      case False
      have "(1 + gamma p) * f * g / (e * h - f * g) - (1 + gamma p) * e * h / (e * h - f * g)
              = - (1 + gamma p)"
        by (rule frac_cancel) (use False in \<open>simp_all add: algebra_simps\<close>)
      moreover
      have "(1 + gamma p) * g * f / (e * h - f * g) - (1 + gamma p) * h * e / (e * h - f * g)
              = - (1 + gamma p)"
        by (rule frac_cancel) (use False in \<open>simp_all add: algebra_simps\<close>)
      ultimately show ?thesis
        using J False
        by (simp add: DoublePendulum_Delta_def M' Mi q numeric Da_cases array_ops la_inv_2)
    qed
  next
    assume J: "J0" "\<not> J1"
    show ?thesis
      using J by (simp add: DoublePendulum_Delta_def M' Mi q numeric Da_cases array_ops la_inv_1)
  next
    assume J: "\<not> J0" "J1"
    show ?thesis
      using J by (simp add: DoublePendulum_Delta_def M' Mi q numeric Da_cases array_ops la_inv_1)
  next
    assume J: "\<not> J0" "\<not> J1"
    show ?thesis
      using J
      by (simp add: DoublePendulum_Delta_def M' Mi q numeric Da_cases array_ops la_inv_0
          split: option.splits)
  qed
qed

lemma Delta_success:
  assumes "DoublePendulum_Delta la t k q dq J p = Inr D"
  shows "\<exists>Mq e f g h J0 J1 Js.
           DoublePendulum_M t k q J p = Inr Mq \<and>
           la_inv_float64 la Mq = Inr (NdArray 2 2 [[e, f], [g, h]]) \<and> J = J0 # J1 # Js"
    and "\<not> symbolic p"
proof -
  from assms obtain Mq A Mi where
    M: "DoublePendulum_M t k q J p = Inr Mq" and
    A: "DoublePendulum_Da t k q dq J p = Inr A" and
    Mi': "la_inv la (M_dtype p) Mq = Inr Mi"
    by (auto simp add: DoublePendulum_Delta_def bind_result_def split: sum.splits)
  then show numeric: "\<not> symbolic p"
    by (auto simp add: la_inv_def M_dtype_def split: if_splits)
  with Mi' have Mi: "la_inv_float64 la Mq = Inr Mi"
    by simp
  from M_shape [OF M] obtain a b d where "Mq = NdArray 2 2 [[a, b], [b, d]]"
    by blast
  with Mi obtain e f g h where "Mi = NdArray 2 2 [[e, f], [g, h]]"
    using la_inv_shape_2x2 by blast
  with M Mi Da_success [OF A] show "\<exists>Mq e f g h J0 J1 Js.
           DoublePendulum_M t k q J p = Inr Mq \<and>
           la_inv_float64 la Mq = Inr (NdArray 2 2 [[e, f], [g, h]]) \<and> J = J0 # J1 # Js"
    by blast
qed

lemma Delta_shape:
  assumes D: "DoublePendulum_Delta la t k q dq J p = Inr D" and q: "length q = 2"
  shows "\<exists>x y z w. D = NdArray 2 2 [[x, y], [z, w]]"
proof -
  from Delta_success(1) [OF D] obtain Mq e f g h J0 J1 Js where
    M: "DoublePendulum_M t k q J p = Inr Mq" and
    Mi: "la_inv_float64 la Mq = Inr (NdArray 2 2 [[e, f], [g, h]])" and J: "J = J0 # J1 # Js"
    by blast
  show ?thesis
    using D unfolding J Delta_eval [OF M [unfolded J] Mi q Delta_success(2) [OF D]]
    by (auto split: if_splits option.splits)
qed

subsection \<open>The methods at the concrete parameter set\<close>

lemma test_parameters_simps [simp]:
  "m0 test_parameters = 12 / 49" "m1 test_parameters = 1 / 7"
  "l0 test_parameters = 7" "l1 test_parameters = 6"
  "gamma test_parameters = 1 / 2" "symbolic test_parameters = False"
  by (simp_all add: test_parameters_def)

lemma test_M:
  "DoublePendulum_M t k [q0, 0] J test_parameters = Inr (NdArray 2 2 [[23, 6], [6, 3]])"
  by (simp add: M_eval power2_eq_square)

lemma test_M_inv:
  "la_inv_float64 la (NdArray 2 2 [[23, 6], [6, 3]]) =
     Inr (NdArray 2 2 [[1 / 11, - 2 / 11], [- 2 / 11, 23 / 33]])"
  by (simp add: la_inv_2)

lemma test_a:
  "DoublePendulum_a t k [q0, q1] dq J test_parameters = Inr [Fin q0, Fin (- q1 + pi)]"
  by (simp add: DoublePendulum_a_def py_div_def np_arccos_def power2_eq_square)

lemma M_indep_J:
  "DoublePendulum_M t k q J p = Inr Mq \<Longrightarrow> DoublePendulum_M t' k' q J' p = Inr Mq"
  by (simp add: DoublePendulum_M_def)

lemma C_shape:
  assumes "DoublePendulum_C t k q dq J p = Inr Cq"
  shows "\<exists>a b c d. Cq = NdArray 2 2 [[a, b], [c, d]]"
  using assms
  by (auto simp add: DoublePendulum_C_def Let_def bind_result_def split: sum.splits)

subsection \<open>Positive masses and lengths\<close>

lemma mass_matrix_det_pos:
  fixes c :: real
  assumes pos: "0 < mm0" "0 < mm1" "0 < ll0" "0 < ll1" and c: "c\<^sup>2 \<le> 1"
  defines "a \<equiv> mm0 * ll0\<^sup>2 / 3 + mm1 * ll1\<^sup>2 / 3 + mm0 * (ll0 / 2)\<^sup>2
                + mm1 * (ll0\<^sup>2 + (ll1 / 2)\<^sup>2)"
    and "b \<equiv> mm1 * ll0 * ll1 / 2"
    and "d \<equiv> mm1 * ll1\<^sup>2 / 3 + mm1 * (ll1 / 2)\<^sup>2"
  shows "0 < (a + 2 * b * c) * d - (d + b * c) * (d + b * c)" and "0 < d"
proof -
  define u where "u = mm1 * ll0 * ll1"
  define P where "P = d * (7 / 12 * (mm0 * ll0\<^sup>2))"
  define W where "W = u\<^sup>2 / 4 * c\<^sup>2"
  have u: "0 < u" using pos by (simp add: u_def)
  have d: "d = 7 / 12 * (mm1 * ll1\<^sup>2)"
    by (simp add: d_def power2_eq_square)
  show "0 < d" using pos by (simp add: d)
  have 1: "(a + 2 * b * c) * d - (d + b * c) * (d + b * c) = d * (a - d) - b\<^sup>2 * c\<^sup>2"
    by (simp add: algebra_simps power2_eq_square)
  have 2: "a - d = 7 / 12 * (mm0 * ll0\<^sup>2) + mm1 * ll0\<^sup>2"
    by (simp add: a_def d_def power2_eq_square algebra_simps)
  have 3: "b\<^sup>2 * c\<^sup>2 = W"
    by (simp add: b_def u_def W_def power2_eq_square)
  have 4: "d * (mm1 * ll0\<^sup>2) = 7 / 12 * u\<^sup>2"
    by (simp add: d u_def power2_eq_square)
  have "d * (a - d) = P + d * (mm1 * ll0\<^sup>2)"
    unfolding 2 P_def by (simp add: distrib_left)
  then have 5: "d * (a - d) = P + 7 / 12 * u\<^sup>2"
    using 4 by simp
  have 6: "0 < P"
    unfolding P_def using pos \<open>0 < d\<close> by simp
  have "0 \<le> u\<^sup>2 / 4" by simp
  then have "u\<^sup>2 / 4 * c\<^sup>2 \<le> u\<^sup>2 / 4 * 1"
    using c by (rule mult_left_mono [rotated])
  then have 7: "W \<le> u\<^sup>2 / 4"
    by (simp add: W_def)
  have 8: "0 < u\<^sup>2" using u by simp
  show "0 < (a + 2 * b * c) * d - (d + b * c) * (d + b * c)"
    unfolding 1 3 5 using 6 7 8 by linarith
qed

text \<open>
  For positive masses and lengths the mass matrix has an inverse at every configuration,
  and so has \<open>Da \<cdot> M\<inverse> \<cdot> Da\<^sup>T\<close> for every active set with a contact.
\<close>

lemma physical_parameters_invertible:
  assumes pos: "0 < m0 p" "0 < m1 p" "0 < l0 p" "0 < l1 p"
    and J: "J0 \<or> J1"
  shows "\<exists>Mq Minv Da X.
           DoublePendulum_M t k [q0, q1] [J0, J1] p = Inr Mq \<and> is_inverse Mq Minv \<and>
           DoublePendulum_Da t k [q0, q1] dq [J0, J1] p = Inr Da \<and>
           is_inverse (mat_mul (mat_mul Da Minv) (np_T Da)) X"
proof -
  define a where "a = m0 p * (l0 p)\<^sup>2 / 3 + m1 p * (l1 p)\<^sup>2 / 3 + m0 p * (l0 p / 2)\<^sup>2
                + m1 p * ((l0 p)\<^sup>2 + (l1 p / 2)\<^sup>2)"
  define b where "b = m1 p * l0 p * l1 p / 2"
  define d where "d = m1 p * (l1 p)\<^sup>2 / 3 + m1 p * (l1 p / 2)\<^sup>2"
  define A where "A = a + 2 * b * cos q1"
  define B where "B = d + b * cos q1"
  define Mq where "Mq = NdArray 2 2 [[A, B], [B, d]]"
  have M: "DoublePendulum_M t k [q0, q1] [J0, J1] p = Inr Mq"
    unfolding Mq_def A_def B_def a_def b_def d_def by (rule M_eval)
  have "(cos q1)\<^sup>2 \<le> 1"
    by (simp add: abs_square_le_1)
  from mass_matrix_det_pos [OF pos this] have det: "0 < A * d - B * B" and dpos: "0 < d"
    unfolding A_def B_def a_def b_def d_def by blast+
  then have nz: "A * d - B * B \<noteq> 0" by simp
  define e where "e = d / (A * d - B * B)"
  define f where "f = - B / (A * d - B * B)"
  define h where "h = A / (A * d - B * B)"
  define Minv where "Minv = NdArray 2 2 [[e, f], [f, h]]"
  have Mi: "la_inv_float64 \<lparr>inv_empty = None\<rparr> Mq = Inr Minv"
    unfolding Mq_def Minv_def e_def f_def h_def using nz by (simp add: la_inv_2)
  then have inv: "is_inverse Mq Minv"
    unfolding Mq_def by (rule la_inv_sound_2x2)
  then have eqs: "A * e + B * f = 1" "A * f + B * h = 0" "B * e + d * f = 0" "B * f + d * h = 1"
    unfolding Mq_def Minv_def is_inverse_2x2_iff by simp_all
  from inverse_entries_2x2 [OF eqs] have nz': "e * h - f * f \<noteq> 0"
    by blast
  have epos: "0 < e"
    unfolding e_def using det dpos by simp
  have "0 < A * d"
  proof -
    have "0 \<le> B * B" by simp
    with det show ?thesis by linarith
  qed
  with dpos have "0 < A"
    by (simp add: zero_less_mult_iff)
  then have hpos: "0 < h"
    unfolding h_def using det by simp
  consider (both) "J0" "J1" | (first) "J0" "\<not> J1" | (second) "\<not> J0" "J1"
    using J by blast
  then show ?thesis
  proof cases
    case both
    define Da where "Da = NdArray 2 2 [[1, 0], [0, - 1]]"
    have A: "DoublePendulum_Da t k [q0, q1] dq [J0, J1] p = Inr Da"
      using both by (simp add: Da_cases Da_def)
    have E: "mat_mul (mat_mul Da Minv) (np_T Da) = NdArray 2 2 [[e, - f], [- f, h]]"
      by (simp add: Da_def Minv_def array_ops)
    have "e * h - - f * - f \<noteq> 0" using nz' by simp
    then obtain X where "la_inv_float64 \<lparr>inv_empty = None\<rparr> (NdArray 2 2 [[e, - f], [- f, h]]) = Inr X"
      by (simp add: la_inv_2)
    then have "is_inverse (mat_mul (mat_mul Da Minv) (np_T Da)) X"
      unfolding E by (rule la_inv_sound_2x2)
    with M inv A show ?thesis by blast
  next
    case first
    define Da where "Da = NdArray 1 2 [[1, 0]]"
    have A: "DoublePendulum_Da t k [q0, q1] dq [J0, J1] p = Inr Da"
      using first by (simp add: Da_cases Da_def)
    have E: "mat_mul (mat_mul Da Minv) (np_T Da) = NdArray (Suc 0) (Suc 0) [[e]]"
      by (simp add: Da_def Minv_def array_ops)
    have "is_inverse (mat_mul (mat_mul Da Minv) (np_T Da)) (NdArray (Suc 0) (Suc 0) [[1 / e]])"
      unfolding E is_inverse_1x1_iff using epos by simp
    with M inv A show ?thesis by blast
  next
    case second
    define Da where "Da = NdArray 1 2 [[0, - 1]]"
    have A: "DoublePendulum_Da t k [q0, q1] dq [J0, J1] p = Inr Da"
      using second by (simp add: Da_cases Da_def)
    have E: "mat_mul (mat_mul Da Minv) (np_T Da) = NdArray (Suc 0) (Suc 0) [[h]]"
      by (simp add: Da_def Minv_def array_ops)
    have "is_inverse (mat_mul (mat_mul Da Minv) (np_T Da)) (NdArray (Suc 0) (Suc 0) [[1 / h]])"
      unfolding E is_inverse_1x1_iff using hpos by simp
    with M inv A show ?thesis by blast
  qed
qed

section \<open>The claims\<close>

subsection \<open>C8: the constraint Jacobian\<close>

text \<open>
  Claim C8.  For a configuration \<open>q\<close> of length 2 and an active set \<open>[J0, J1]\<close>, \<open>Da\<close> returns
  the row \<open>[1, 0]\<close> when \<open>J0\<close> holds followed by the row \<open>[0, -1]\<close> when \<open>J1\<close> holds, in that
  order, as an array with two columns; with \<open>[False, False]\<close> it is the array with no
  rows and two columns, with \<open>[True, True]\<close> it is \<open>[[1, 0], [0, -1]]\<close>.
\<close>

theorem Da_rows_fixed_order:
  assumes "length q = 2"
  shows "DoublePendulum_Da t k q dq [J0, J1] p =
           Inr (NdArray (length (filter id [J0, J1])) 2
                  ((if J0 then [[1, 0]] else []) @ (if J1 then [[0, - 1]] else [])))
         \<and> DoublePendulum_Da t k q dq [False, False] p = Inr (NdArray 0 2 [])
         \<and> DoublePendulum_Da t k q dq [True, True] p = Inr (NdArray 2 2 [[1, 0], [0, - 1]])"
  using assms by (simp add: Da_cases)

theorem Da_rows_fixed_order_witness:
  "length [0, 0 :: real] = 2
   \<and> DoublePendulum_Da (0 :: real) (0 :: nat) [0, 0] [0, 0 :: real] [False, True]
        test_parameters
     = Inr (NdArray 1 2 [[0, - 1]])
   \<and> DoublePendulum_Da (0 :: real) (0 :: nat) [0, 0] [0, 0 :: real] [False, False]
        test_parameters
     = Inr (NdArray 0 2 [])"
  using Da_rows_fixed_order [of "[0, 0]" "0 :: real" "0 :: nat" "[0, 0 :: real]" False True
      test_parameters]
  by simp

subsection \<open>C5: the mass matrix\<close>

text \<open>
  Claim C5.  For a configuration \<open>[q0, q1]\<close>, \<open>M\<close> returns the \<open>2\<times>2\<close> array
  \<open>[[a + 2 b cos q1, d + b cos q1], [d + b cos q1, d]]\<close> with \<open>a\<close>, \<open>b\<close>, \<open>d\<close> as the
  specification gives them.  Its entries \<open>[0][1]\<close> and \<open>[1][0]\<close> are equal, it is its own
  transpose, and it is the same for every \<open>q0\<close> (and every \<open>t\<close>, \<open>k\<close>, \<open>J\<close>).
\<close>

theorem M_closed_form:
  "let a = m0 p * (l0 p)\<^sup>2 / 3 + m1 p * (l1 p)\<^sup>2 / 3 + m0 p * (l0 p / 2)\<^sup>2
             + m1 p * ((l0 p)\<^sup>2 + (l1 p / 2)\<^sup>2);
       b = m1 p * l0 p * l1 p / 2;
       d = m1 p * (l1 p)\<^sup>2 / 3 + m1 p * (l1 p / 2)\<^sup>2;
       Mq = NdArray 2 2 [[a + 2 * b * cos q1, d + b * cos q1], [d + b * cos q1, d]]
   in DoublePendulum_M t k [q0, q1] J p = Inr Mq
      \<and> rows Mq ! 0 ! 1 = rows Mq ! 1 ! 0
      \<and> np_T Mq = Mq
      \<and> DoublePendulum_M t' k' [q0', q1] J' p = Inr Mq"
  by (simp add: M_eval Let_def np_T_def column_def upt_rec)

subsection \<open>C7: the constraint value\<close>

text \<open>
  Claim C7.  With \<open>b = m1 l0 l1 / 2\<close> not zero and \<open>|d / b| \<le> 1\<close>, where
  \<open>d = m1 l1\<^sup>2 / 3 + m1 (l1 / 2)\<^sup>2\<close>, the method \<open>a\<close> returns the vector of length 2 with
  \<open>a[0] = q[0]\<close> and \<open>a[1] = - q[1] + arccos (- d / b)\<close>.
\<close>

theorem a_closed_form:
  assumes "m1 p * l0 p * l1 p / 2 \<noteq> 0"
    and "\<bar>(m1 p * (l1 p)\<^sup>2 / 3 + m1 p * (l1 p / 2)\<^sup>2) / (m1 p * l0 p * l1 p / 2)\<bar> \<le> 1"
  shows "let b = m1 p * l0 p * l1 p / 2;
             d = m1 p * (l1 p)\<^sup>2 / 3 + m1 p * (l1 p / 2)\<^sup>2
         in DoublePendulum_a t k [q0, q1] dq J p = Inr [Fin q0, Fin (- q1 + arccos (- d / b))]"
proof -
  define b where "b = m1 p * l0 p * l1 p / 2"
  define d where "d = m1 p * (l1 p)\<^sup>2 / 3 + m1 p * (l1 p / 2)\<^sup>2"
  from assms have "b \<noteq> 0" and "\<bar>d / b\<bar> \<le> 1"
    unfolding b_def d_def by blast+
  then have "- 1 \<le> - (d / b)" and "- (d / b) \<le> 1"
    by linarith+
  then have "- 1 \<le> - d / b" and "- d / b \<le> 1"
    by (simp_all only: minus_divide_left)
  with \<open>b \<noteq> 0\<close> have
    "DoublePendulum_a t k [q0, q1] dq J p = Inr [Fin q0, Fin (- q1 + arccos (- d / b))]"
    by (simp add: a_eval [OF b_def d_def] np_arccos_def)
  then show ?thesis
    unfolding Let_def b_def d_def .
qed

theorem a_closed_form_witness:
  "m1 test_parameters * l0 test_parameters * l1 test_parameters / 2 \<noteq> 0
   \<and> \<bar>(m1 test_parameters * (l1 test_parameters)\<^sup>2 / 3
        + m1 test_parameters * (l1 test_parameters / 2)\<^sup>2)
       / (m1 test_parameters * l0 test_parameters * l1 test_parameters / 2)\<bar> \<le> 1
   \<and> DoublePendulum_a (0 :: real) (0 :: nat) [- 1, 0] [1, 1 :: real] [False, True]
        test_parameters
     = Inr [Fin (- 1), Fin pi]"
  using a_closed_form [of test_parameters "0 :: real" "0 :: nat" "- 1" 0 "[1, 1 :: real]"
      "[False, True]"]
  by (simp add: power2_eq_square)

subsection \<open>C3: the constraint value on invalid parameters\<close>

text \<open>
  Claim C3 says that \<open>a\<close> raises on invalid parameters instead of returning NaN.  The method
  validates nothing.  With \<open>l0 = 1\<close> and \<open>l1 = 6\<close> the quotient \<open>d / b\<close> is \<open>7\<close>, no
  exception is raised, and the second component of the result is NaN.
\<close>

theorem a_returns_nan:
  "1 < \<bar>(m1 (test_parameters\<lparr>l0 := 1\<rparr>) * (l1 (test_parameters\<lparr>l0 := 1\<rparr>))\<^sup>2 / 3
          + m1 (test_parameters\<lparr>l0 := 1\<rparr>) * (l1 (test_parameters\<lparr>l0 := 1\<rparr>) / 2)\<^sup>2)
        / (m1 (test_parameters\<lparr>l0 := 1\<rparr>) * l0 (test_parameters\<lparr>l0 := 1\<rparr>)
            * l1 (test_parameters\<lparr>l0 := 1\<rparr>) / 2)\<bar>
   \<and> DoublePendulum_a (0 :: real) (0 :: nat) [0, 0] [0, 0 :: real] [False, False]
        (test_parameters\<lparr>l0 := 1\<rparr>) = Inr [Fin 0, NaN]"
  by (simp add: DoublePendulum_a_def py_div_def np_arccos_def power2_eq_square)

text \<open>
  Claim C3, amended.  On invalid parameters \<open>a\<close> does this: when \<open>b = m1 l0 l1 / 2\<close> is zero
  (as it is for \<open>m1 = 0\<close>) the Python division \<open>- d / b\<close> raises \<open>ZeroDivisionError\<close>; when
  \<open>b\<close> is not zero and \<open>|d / b| > 1\<close> nothing is raised and the result is \<open>[q0, NaN]\<close>.
\<close>

theorem a_invalid_parameters:
  assumes "m1 p * l0 p * l1 p / 2 = 0
           \<or> 1 < \<bar>(m1 p * (l1 p)\<^sup>2 / 3 + m1 p * (l1 p / 2)\<^sup>2) / (m1 p * l0 p * l1 p / 2)\<bar>"
  shows "DoublePendulum_a t k [q0, q1] dq J p =
           (if m1 p * l0 p * l1 p / 2 = 0 then Inl ZeroDivisionError else Inr [Fin q0, NaN])"
proof -
  define b where "b = m1 p * l0 p * l1 p / 2"
  define d where "d = m1 p * (l1 p)\<^sup>2 / 3 + m1 p * (l1 p / 2)\<^sup>2"
  from assms have *: "b = 0 \<or> 1 < \<bar>d / b\<bar>"
    unfolding b_def d_def by blast
  have "DoublePendulum_a t k [q0, q1] dq J p =
          (if b = 0 then Inl ZeroDivisionError else Inr [Fin q0, NaN])"
  proof (cases "b = 0")
    case True
    then show ?thesis by (simp add: a_eval [OF b_def d_def])
  next
    case False
    with * have "1 < \<bar>d / b\<bar>" by blast
    then have "\<not> (- 1 \<le> - (d / b) \<and> - (d / b) \<le> 1)" by linarith
    then have "\<not> (- 1 \<le> - d / b \<and> - d / b \<le> 1)"
      unfolding minus_divide_left .
    then have "np_arccos (- d / b) = NaN"
      unfolding np_arccos_def by (rule if_not_P)
    with False show ?thesis by (simp add: a_eval [OF b_def d_def])
  qed
  then show ?thesis unfolding b_def d_def .
qed

theorem a_invalid_parameters_witness:
  "m1 (test_parameters\<lparr>m1 := 0\<rparr>) * l0 (test_parameters\<lparr>m1 := 0\<rparr>)
      * l1 (test_parameters\<lparr>m1 := 0\<rparr>) / 2 = 0
   \<and> DoublePendulum_a (0 :: real) (0 :: nat) [0, 0] [0, 0 :: real] [False, False]
        (test_parameters\<lparr>m1 := 0\<rparr>) = Inl ZeroDivisionError"
  using a_invalid_parameters [of "test_parameters\<lparr>m1 := 0\<rparr>" "0 :: real" "0 :: nat" 0 0
      "[0, 0 :: real]" "[False, False]"]
  by simp

subsection \<open>C1: the impact map\<close>

text \<open>
  Claim C1.  For a configuration \<open>q\<close> and a velocity \<open>dq\<close> (both of length 2), any active set
  \<open>J\<close> and parameters for which \<open>a\<close> returns \<open>av\<close> and the projector built from the impact
  set \<open>av < 0\<close> is returned as \<open>D\<close> (its inversions succeed), \<open>R\<close> returns exactly the
  configuration \<open>q\<close>, the velocity \<open>D \<cdot> dq\<close> and the input active set \<open>J\<close>, not the impact
  set.
\<close>

theorem R_impact_map:
  assumes q: "length q = 2" and dq: "length dq = 2"
    and a: "DoublePendulum_a t k q dq J p = Inr av"
    and D: "DoublePendulum_Delta la t k q dq (map lt0 av) p = Inr D"
  shows "DoublePendulum_R la t k q dq J p = Inr (q, mat_vec D dq, J)
         \<and> nrows D = 2 \<and> ncols D = 2"
proof -
  from Delta_shape [OF D q] obtain x y z w where "D = NdArray 2 2 [[x, y], [z, w]]"
    by blast
  then show ?thesis
    using a D dq by (simp add: DoublePendulum_R_def np_matvec_def)
qed

text \<open>
  At this input the impact set is \<open>[True, False]\<close> and the active set returned is the
  input \<open>[False, True]\<close>.
\<close>

theorem R_impact_map_witness:
  "length [- 1, 0 :: real] = 2 \<and> length [1, 1 :: real] = 2
   \<and> DoublePendulum_a (0 :: real) (0 :: nat) [- 1, 0] [1, 1 :: real] [False, True] test_parameters
       = Inr [Fin (- 1), Fin pi]
   \<and> DoublePendulum_Delta \<lparr>inv_empty = None\<rparr> (0 :: real) (0 :: nat) [- 1, 0] [1, 1 :: real]
        (map lt0 [Fin (- 1), Fin pi]) test_parameters
       = Inr (NdArray 2 2 [[- 1 / 2, 0], [3, 1]])
   \<and> DoublePendulum_R \<lparr>inv_empty = None\<rparr> (0 :: real) (0 :: nat) [- 1, 0] [1, 1] [False, True]
        test_parameters
       = Inr ([- 1, 0], [- 1 / 2, 4], [False, True])"
proof -
  have a: "DoublePendulum_a (0 :: real) (0 :: nat) [- 1, 0] [1, 1 :: real] [False, True]
             test_parameters = Inr [Fin (- 1), Fin pi]"
    by (simp add: test_a)
  have D: "DoublePendulum_Delta \<lparr>inv_empty = None\<rparr> (0 :: real) (0 :: nat) [- 1, 0] [1, 1 :: real]
             (map lt0 [Fin (- 1), Fin pi]) test_parameters
           = Inr (NdArray 2 2 [[- 1 / 2, 0], [3, 1]])"
    by (simp add: Delta_eval [OF test_M test_M_inv])
  show ?thesis
    using R_impact_map [OF _ _ a D] a D by (simp add: mat_vec_def dot_def)
qed

subsection \<open>C10: both contacts active\<close>




subsection \<open>C9: tangency of the projector with gamma = 0\<close>

text \<open>
  Claim C9.  With \<open>gamma = 0\<close>, for every configuration \<open>q\<close> and active set for which the
  projector \<open>D\<close> is returned, and every velocity \<open>v\<close>, the product \<open>Da \<cdot> (D \<cdot> v)\<close> is the
  zero vector: the velocity after the impact has no component along the active
  constraints.  In exact arithmetic the product is exactly zero, for every velocity.
\<close>

theorem Delta_plastic_tangency:
  assumes q: "length q = 2" and v: "length v = 2" and g: "gamma p = 0"
    and D: "DoublePendulum_Delta la t k q dq J p = Inr D"
    and A: "DoublePendulum_Da t k q dq J p = Inr A"
  shows "bind_result (np_matvec D v) (np_matvec A) = Inr (replicate (nrows A) 0)"
proof -
  from Delta_success(1) [OF D] obtain Mq e f g h J0 J1 Js where
    M: "DoublePendulum_M t k q J p = Inr Mq" and
    Mi: "la_inv_float64 la Mq = Inr (NdArray 2 2 [[e, f], [g, h]])" and J: "J = J0 # J1 # Js"
    by blast
  from v obtain x y where v': "v = [x, y]"
    using list_length_2 by blast
  show ?thesis
    using D A unfolding J Delta_eval [OF M [unfolded J] Mi q Delta_success(2) [OF D]] Da_cases v'
    by (auto simp add: g q array_ops numeral_2_eq_2 split: if_splits option.splits)
qed

theorem Delta_plastic_tangency_witness:
  "length [- 1, 0 :: real] = 2 \<and> length [1, 1 :: real] = 2
   \<and> gamma (test_parameters\<lparr>gamma := 0\<rparr>) = 0
   \<and> DoublePendulum_Delta \<lparr>inv_empty = None\<rparr> (0 :: real) (0 :: nat) [- 1, 0] [1, 1 :: real]
        [True, False] (test_parameters\<lparr>gamma := 0\<rparr>)
       = Inr (NdArray 2 2 [[0, 0], [2, 1]])
   \<and> DoublePendulum_Da (0 :: real) (0 :: nat) [- 1, 0] [1, 1 :: real] [True, False]
        (test_parameters\<lparr>gamma := 0\<rparr>)
       = Inr (NdArray 1 2 [[1, 0]])
   \<and> bind_result (np_matvec (NdArray 2 2 [[0, 0], [2, 1]]) [1, 1])
        (np_matvec (NdArray 1 2 [[1, 0]])) = Inr [0]"
proof -
  have M: "DoublePendulum_M (0 :: real) (0 :: nat) [- 1, 0] [True, False]
             (test_parameters\<lparr>gamma := 0\<rparr>) = Inr (NdArray 2 2 [[23, 6], [6, 3]])"
    by (simp add: M_eval power2_eq_square)
  have D: "DoublePendulum_Delta \<lparr>inv_empty = None\<rparr> (0 :: real) (0 :: nat) [- 1, 0] [1, 1 :: real]
        [True, False] (test_parameters\<lparr>gamma := 0\<rparr>)
       = Inr (NdArray 2 2 [[0, 0], [2, 1]])"
    by (simp add: Delta_eval [OF M test_M_inv])
  have A: "DoublePendulum_Da (0 :: real) (0 :: nat) [- 1, 0] [1, 1 :: real] [True, False]
        (test_parameters\<lparr>gamma := 0\<rparr>) = Inr (NdArray 1 2 [[1, 0]])"
    by (simp add: Da_cases)
  show ?thesis
    using Delta_plastic_tangency [OF _ _ _ D A, of "[1, 1]"] D A
    by simp
qed

subsection \<open>C6: the acceleration\<close>

text \<open>
  Claim C6.  For \<open>q\<close> and \<open>dq\<close> (of length 2) and parameters for which the mass matrix
  \<open>M(q)\<close> has an inverse, \<open>ddq\<close> returns \<open>M(q)\<inverse> \<cdot> (- C(q, dq) \<cdot> dq)\<close>, in the numeric and in
  the symbolic mode, and what it returns satisfies \<open>M \<cdot> ddq = - C \<cdot> dq\<close>.
\<close>

theorem ddq_solves_equation:
  assumes M: "DoublePendulum_M t k q J p = Inr Mq"
    and inv: "is_inverse Mq Minv"
    and C: "DoublePendulum_C t k q dq J p = Inr Cq"
    and dq: "length dq = 2"
  shows "DoublePendulum_ddq la t k q dq J p = Inr (mat_vec Minv (map uminus (mat_vec Cq dq)))
         \<and> mat_vec Mq (mat_vec Minv (map uminus (mat_vec Cq dq))) = map uminus (mat_vec Cq dq)"
proof -
  from M_shape [OF M] obtain a b d where Mq: "Mq = NdArray 2 2 [[a, b], [b, d]]"
    by blast
  from la_inv_complete_2x2 [OF inv [unfolded Mq]] obtain e f g h where
    Mi: "la_inv_float64 la Mq = Inr Minv" "sympy_inv Mq = Inr Minv"
    and Minv: "Minv = NdArray 2 2 [[e, f], [g, h]]"
    unfolding Mq by blast
  from inv have eqs: "a * e + b * g = 1" "a * f + b * h = 0" "b * e + d * g = 0"
    "b * f + d * h = 1"
    unfolding Mq Minv is_inverse_2x2_iff by simp_all
  from C_shape [OF C] obtain c00 c01 c10 c11 where
    Cq: "Cq = NdArray 2 2 [[c00, c01], [c10, c11]]"
    by blast
  from dq obtain x y where dq': "dq = [x, y]"
    using list_length_2 by blast
  define r1 where "r1 = - (c00 * x + c01 * y)"
  define r2 where "r2 = - (c10 * x + c11 * y)"
  have rhs: "map uminus (mat_vec Cq dq) = [r1, r2]"
    by (simp add: Cq dq' mat_vec_def dot_def r1_def r2_def)
  have neg: "np_matvec (np_neg Cq) dq = Inr [r1, r2]"
    by (simp add: Cq dq' array_ops r1_def r2_def)
  have first: "DoublePendulum_ddq la t k q dq J p = Inr (mat_vec Minv [r1, r2])"
  proof (cases "symbolic p")
    case True
    then show ?thesis
      unfolding DoublePendulum_ddq_def using M Mi C neg
      by (simp add: np_matvec_def Minv)
  next
    case False
    then show ?thesis
      unfolding DoublePendulum_ddq_def using M Mi C neg
      by (simp add: np_matvec_def Minv)
  qed
  have "a * (e * r1 + f * r2) + b * (g * r1 + h * r2)
          = (a * e + b * g) * r1 + (a * f + b * h) * r2"
    by (simp add: algebra_simps)
  then have one: "a * (e * r1 + f * r2) + b * (g * r1 + h * r2) = r1"
    using eqs by simp
  have "b * (e * r1 + f * r2) + d * (g * r1 + h * r2)
          = (b * e + d * g) * r1 + (b * f + d * h) * r2"
    by (simp add: algebra_simps)
  then have two: "b * (e * r1 + f * r2) + d * (g * r1 + h * r2) = r2"
    using eqs by simp
  have second: "mat_vec Mq (mat_vec Minv [r1, r2]) = [r1, r2]"
    using one two by (simp add: Mq Minv mat_vec_def dot_def)
  show ?thesis
    unfolding rhs using first second by simp
qed

theorem ddq_solves_equation_witness:
  "DoublePendulum_M (0 :: real) (0 :: nat) [0, pi / 2] [False, False] test_parameters
     = Inr (NdArray 2 2 [[17, 3], [3, 3]])
   \<and> is_inverse (NdArray 2 2 [[17, 3], [3, 3]])
        (NdArray 2 2 [[1 / 14, - 1 / 14], [- 1 / 14, 17 / 42]])
   \<and> DoublePendulum_C (0 :: real) (0 :: nat) [0, pi / 2] [1, 1] [False, False] test_parameters
       = Inr (NdArray 2 2 [[- 3, - 6], [3, 0]])
   \<and> length [1, 1 :: real] = 2
   \<and> DoublePendulum_ddq \<lparr>inv_empty = None\<rparr> (0 :: real) (0 :: nat) [0, pi / 2] [1, 1]
        [False, False] test_parameters = Inr [6 / 7, - 13 / 7]
   \<and> mat_vec (NdArray 2 2 [[17, 3], [3, 3]]) [6 / 7, - 13 / 7] = [9, - 3]"
proof -
  have M: "DoublePendulum_M (0 :: real) (0 :: nat) [0, pi / 2] [False, False] test_parameters
             = Inr (NdArray 2 2 [[17, 3], [3, 3]])"
    by (simp add: M_eval power2_eq_square)
  have inv: "is_inverse (NdArray 2 2 [[17, 3], [3, 3]])
               (NdArray 2 2 [[1 / 14, - 1 / 14], [- 1 / 14, 17 / 42]])"
    by (simp add: is_inverse_2x2_iff)
  have C: "DoublePendulum_C (0 :: real) (0 :: nat) [0, pi / 2] [1, 1] [False, False]
             test_parameters = Inr (NdArray 2 2 [[- 3, - 6], [3, 0]])"
    by (simp add: C_eval)
  show ?thesis
    using ddq_solves_equation [OF M inv C, of "\<lparr>inv_empty = None\<rparr>"] M inv C
    by (simp add: mat_vec_def dot_def)
qed

subsection \<open>C2: the impact projector\<close>




subsection \<open>C4: the projector without active contacts\<close>

text \<open>
  Claim C4 says that \<open>Delta\<close> fails when the Jacobian of the active contacts is rank-deficient,
  in particular when no contact is active.  The rows \<open>[1, 0]\<close> and \<open>[0, -1]\<close> are linearly
  independent, so the only such Jacobian is the one with no rows.  \<open>Delta\<close> has no test for
  it: it hands the \<open>0\<times>0\<close> array \<open>Da \<cdot> M\<inverse> \<cdot> Da\<^sup>T\<close> to \<^verbatim>\<open>la.inv\<close>.  Where \<^verbatim>\<open>la.inv\<close>
  returns the empty array, \<open>Delta\<close> returns the identity.
\<close>

theorem Delta_identity_without_contacts:
  "DoublePendulum_Da (0 :: real) (0 :: nat) [- 1, 0] [1, 1 :: real] [False, False]
     test_parameters = Inr (NdArray 0 2 [])
   \<and> DoublePendulum_Delta \<lparr>inv_empty = None\<rparr> (0 :: real) (0 :: nat) [- 1, 0] [1, 1 :: real]
        [False, False] test_parameters
       = Inr (NdArray 2 2 [[1, 0], [0, 1]])"
  by (simp add: Da_cases Delta_eval [OF test_M test_M_inv])

text \<open>
  Claim C4, amended.  In the numeric mode (\<^verbatim>\<open>p['symbolic']\<close> absent or false), with no
  active contact, a configuration \<open>q\<close> of length 2 and a mass matrix that has an inverse,
  \<open>Da\<close> is the array with no rows and two columns, and \<open>Delta\<close> does what \<^verbatim>\<open>la.inv\<close> does on
  the \<open>0\<times>0\<close> array: it raises the error that call raises, and returns the \<open>2\<times>2\<close> identity
  where that call returns the empty array.
\<close>

theorem Delta_without_contacts:
  assumes q: "length q = 2"
    and M: "DoublePendulum_M t k q J p = Inr Mq"
    and inv: "is_inverse Mq Minv"
    and numeric: "\<not> symbolic p"
  shows "DoublePendulum_Da t k q dq [False, False] p = Inr (NdArray 0 2 [])
         \<and> DoublePendulum_Delta la t k q dq [False, False] p
             = (case inv_empty la of Some err \<Rightarrow> Inl err | None \<Rightarrow> Inr (np_identity 2))"
proof -
  from M_shape [OF M] obtain a b d where Mq: "Mq = NdArray 2 2 [[a, b], [b, d]]"
    by blast
  from la_inv_complete_2x2 [OF inv [unfolded Mq]] obtain e f g h where
    Mi: "la_inv_float64 la Mq = Inr (NdArray 2 2 [[e, f], [g, h]])"
    unfolding Mq by blast
  have M': "DoublePendulum_M t k q [False, False] p = Inr Mq"
    using M by (rule M_indep_J)
  show ?thesis
    by (simp add: Da_cases q Delta_eval [OF M' Mi q numeric] array_ops split: option.splits)
qed

theorem Delta_without_contacts_witness:
  "length [- 1, 0 :: real] = 2
   \<and> DoublePendulum_M (0 :: real) (0 :: nat) [- 1, 0] [False, False] test_parameters
       = Inr (NdArray 2 2 [[23, 6], [6, 3]])
   \<and> is_inverse (NdArray 2 2 [[23, 6], [6, 3]])
        (NdArray 2 2 [[1 / 11, - 2 / 11], [- 2 / 11, 23 / 33]])
   \<and> \<not> symbolic test_parameters
   \<and> DoublePendulum_Delta \<lparr>inv_empty = Some ValueError\<rparr> (0 :: real) (0 :: nat) [- 1, 0]
        [1, 1 :: real] [False, False] test_parameters
       = Inl ValueError"
proof -
  have M: "DoublePendulum_M (0 :: real) (0 :: nat) [- 1, 0] [False, False] test_parameters
             = Inr (NdArray 2 2 [[23, 6], [6, 3]])"
    by (simp add: test_M)
  have inv: "is_inverse (NdArray 2 2 [[23, 6], [6, 3]])
               (NdArray 2 2 [[1 / 11, - 2 / 11], [- 2 / 11, 23 / 33]])"
    by (simp add: is_inverse_2x2_iff)
  show ?thesis
    using Delta_without_contacts [OF _ M inv, of "[1, 1 :: real]" "\<lparr>inv_empty = Some ValueError\<rparr>"]
      M inv
    by simp
qed

end
